theory Spec2Isabelle
  imports Complex_Main "HOL-Library.AList"
begin

section \<open>The data of \<open>markets/_classes.py\<close>\<close>

text \<open>
  The exceptions the lookups can raise. \<open>IndexError\<close> is what indexing an array out of
  range raises (the specification's \<open>EmptyTableError\<close> for the boundary queries),
  \<open>KeyError\<close> is raised by the three lookups when no row qualifies (the specification's
  \<open>DateNotFoundError\<close>), and \<open>Exception\<close> is the bare exception of \<open>get_day\<close> for more
  than one matching row (the specification's \<open>DataIntegrityError\<close>). \<open>ValueError\<close> is
  numpy's error for a field name the array does not have, \<open>TypeError\<close> the error of
  converting something that is not a number to a date. \<open>ValueError\<close>, \<open>OverflowError\<close> and
  \<open>OSError\<close> are also what the conversions of the \<open>datetime\<close> module raise for a date or
  an instant outside the range they handle.
\<close>

datatype error =
  IndexError | KeyError | ValueError | TypeError | OverflowError | OSError | Exception

text \<open>
  The two conversions of Python's \<open>datetime\<close> module that the class calls, under the
  local timezone of the process. They belong to the standard library, not to this
  repository, so they are parameters of the model: \<open>timestamp tz d\<close> stands for
  \<open>datetime.datetime(d.year, d.month, d.day).timestamp()\<close>, the instant of local midnight
  of the calendar date \<open>d\<close>, and \<open>fromtimestamp tz t\<close> for \<open>datetime.date.fromtimestamp(t)\<close>,
  the local calendar date of the instant \<open>t\<close>. Both can raise: \<open>timestamp\<close> raises
  \<open>ValueError\<close> for the earliest date (\<open>datetime.date.min\<close>), and \<open>fromtimestamp\<close> raises for
  an instant whose date is out of range, so both return an error or a value. The type
  \<open>'d\<close> is the type of calendar dates. Instants and all stored numbers are real numbers (the
  floats and integers of the array, without NaN).
\<close>

record 'd localtime =
  timestamp :: "'d \<Rightarrow> error + real"
  fromtimestamp :: "real \<Rightarrow> error + 'd"

text \<open>
  The numpy structured array \<open>self.data\<close>: the field names of its dtype
  (\<open>data.dtype.names\<close>) and its rows, each row holding one number per field.
\<close>

record ndarray =
  names :: "string list"
  rows :: "real list list"

text \<open>
  numpy only builds structured arrays whose field names are distinct and whose rows all
  have one value per field.
\<close>

definition wf_ndarray :: "ndarray \<Rightarrow> bool" where
  "wf_ndarray arr \<longleftrightarrow>
     distinct (names arr) \<and> (\<forall>r \<in> set (rows arr). length r = length (names arr))"

record ticker =
  name :: string
  long_name :: string
  data :: ndarray

text \<open>
  A value of the dictionary a lookup returns: a stored number, or the calendar date that
  replaces the number under the key \<open>date\<close>.
\<close>

datatype 'd val = Num real | Day 'd

section \<open>Array and dictionary primitives\<close>

text \<open>
  \<open>xs[i]\<close> as Python and numpy index a sequence of length \<open>n\<close>: an index from \<open>0\<close> to
  \<open>n - 1\<close> counts from the front, one from \<open>- n\<close> to \<open>- 1\<close> from the back, and any
  other index raises \<open>IndexError\<close>.
\<close>

definition getitem :: "'a list \<Rightarrow> int \<Rightarrow> error + 'a" where
  "getitem xs i =
     (if 0 \<le> i \<and> i < int (length xs) then Inr (xs ! nat i)
      else if i < 0 \<and> - int (length xs) \<le> i then Inr (xs ! nat (int (length xs) + i))
      else Inl IndexError)"

text \<open>The position of a field name in \<open>dtype.names\<close>.\<close>

fun index_of :: "'a \<Rightarrow> 'a list \<Rightarrow> nat option" where
  "index_of x [] = None"
| "index_of x (y # ys) =
     (if x = y then Some 0 else map_option Suc (index_of x ys))"

text \<open>\<open>row[nm]\<close> on one row of the array, and \<open>data[nm]\<close>, the column of a field.\<close>

definition field :: "ndarray \<Rightarrow> real list \<Rightarrow> string \<Rightarrow> error + real" where
  "field arr r nm =
     (case index_of nm (names arr) of
        None \<Rightarrow> Inl ValueError
      | Some j \<Rightarrow> Inr (r ! j))"

definition column :: "ndarray \<Rightarrow> string \<Rightarrow> error + real list" where
  "column arr nm =
     (case index_of nm (names arr) of
        None \<Rightarrow> Inl ValueError
      | Some j \<Rightarrow> Inr (map (\<lambda>r. r ! j) (rows arr)))"

text \<open>\<open>np.where(cond)[0]\<close>: the indices at which the condition holds, ascending.\<close>

definition np_where :: "('a \<Rightarrow> bool) \<Rightarrow> 'a list \<Rightarrow> nat list" where
  "np_where P xs = filter (\<lambda>i. P (xs ! i)) [0..<length xs]"

text \<open>
  \<open>dict(pairs)\<close>: the pairs are inserted in order, a later value replacing an earlier one
  under the same key, which keeps its place.
\<close>

definition dict :: "('k \<times> 'v) list \<Rightarrow> ('k \<times> 'v) list" where
  "dict kvs = foldl (\<lambda>d (k, v). AList.update k v d) [] kvs"

section \<open>The methods of \<open>Ticker\<close>\<close>

text \<open>
  Every method takes the object \<open>self\<close> and returns its result, an error or a value,
  together with the object after the call.
\<close>

definition get_first_date :: "'d localtime \<Rightarrow> ticker \<Rightarrow> (error + 'd) \<times> ticker" where
  "get_first_date tz self =
     (case getitem (rows (data self)) 0 of
        Inl e \<Rightarrow> (Inl e, self)
      | Inr r \<Rightarrow>
          (case field (data self) r ''date'' of
             Inl e \<Rightarrow> (Inl e, self)
           | Inr t \<Rightarrow> (fromtimestamp tz t, self)))"

definition get_last_date :: "'d localtime \<Rightarrow> ticker \<Rightarrow> (error + 'd) \<times> ticker" where
  "get_last_date tz self =
     (case getitem (rows (data self)) (- 1) of
        Inl e \<Rightarrow> (Inl e, self)
      | Inr r \<Rightarrow>
          (case field (data self) r ''date'' of
             Inl e \<Rightarrow> (Inl e, self)
           | Inr t \<Rightarrow> (fromtimestamp tz t, self)))"

text \<open>
  \<open>_get_row\<close>: the row at \<open>index\<close> as a dictionary from the column names to the row's
  values, the number under \<open>date\<close> replaced by its calendar date, unless the conversion
  raises. The assignment \<open>d['date'] = ...\<close> writes to the dictionary just built, not to the
  array.
\<close>

definition get_row ::
  "'d localtime \<Rightarrow> int \<Rightarrow> ticker \<Rightarrow> (error + (string \<times> 'd val) list) \<times> ticker" where
  "get_row tz index self =
     (case getitem (rows (data self)) index of
        Inl e \<Rightarrow> (Inl e, self)
      | Inr row_values \<Rightarrow>
          (let column_names = names (data self);
               d = dict (zip column_names (map Num row_values))
           in case map_of d ''date'' of
                None \<Rightarrow> (Inl KeyError, self)
              | Some (Num t) \<Rightarrow>
                  (case fromtimestamp tz t of
                     Inl e \<Rightarrow> (Inl e, self)
                   | Inr day \<Rightarrow> (Inr (AList.update ''date'' (Day day) d), self))
              | Some (Day _) \<Rightarrow> (Inl TypeError, self)))"

text \<open>
  The three lookups convert the date first (the first statement of each method), so a
  date that \<open>timestamp\<close> rejects raises before the table is read.
\<close>

definition get_day ::
  "'d localtime \<Rightarrow> 'd \<Rightarrow> ticker \<Rightarrow> (error + (string \<times> 'd val) list) \<times> ticker" where
  "get_day tz date self =
     (case timestamp tz date of
        Inl e \<Rightarrow> (Inl e, self)
      | Inr ts \<Rightarrow>
          (case column (data self) ''date'' of
             Inl e \<Rightarrow> (Inl e, self)
           | Inr col \<Rightarrow>
               (let matches = np_where (\<lambda>x. x = ts) col;
                    match_count = length matches
                in if match_count = 0 then (Inl KeyError, self)
                   else if match_count = 1 then get_row tz (int (matches ! 0)) self
                   else (Inl Exception, self))))"

definition get_day_or_first_after ::
  "'d localtime \<Rightarrow> 'd \<Rightarrow> ticker \<Rightarrow> (error + (string \<times> 'd val) list) \<times> ticker" where
  "get_day_or_first_after tz date self =
     (case timestamp tz date of
        Inl e \<Rightarrow> (Inl e, self)
      | Inr ts \<Rightarrow>
          (case column (data self) ''date'' of
             Inl e \<Rightarrow> (Inl e, self)
           | Inr col \<Rightarrow>
               (let matches = np_where (\<lambda>x. x \<ge> ts) col;
                    match_count = length matches
                in if match_count = 0 then (Inl KeyError, self)
                   else get_row tz (int (matches ! 0)) self)))"

definition get_day_or_last_before ::
  "'d localtime \<Rightarrow> 'd \<Rightarrow> ticker \<Rightarrow> (error + (string \<times> 'd val) list) \<times> ticker" where
  "get_day_or_last_before tz date self =
     (case timestamp tz date of
        Inl e \<Rightarrow> (Inl e, self)
      | Inr ts \<Rightarrow>
          (case column (data self) ''date'' of
             Inl e \<Rightarrow> (Inl e, self)
           | Inr col \<Rightarrow>
               (let matches = np_where (\<lambda>x. x \<le> ts) col;
                    match_count = length matches
                in if match_count = 0 then (Inl KeyError, self)
                   else get_row tz (int (last matches)) self)))"

section \<open>What the specification calls the record of a row\<close>

text \<open>
  The specification describes the result of a lookup as the mapping from each column name
  to the value the row stores for it, with the number under \<open>date\<close> translated to a
  calendar date. \<open>stored arr i c\<close> is the value row \<open>i\<close> stores for column \<open>c\<close>, and
  \<open>row_record arr i day\<close> is that mapping for row \<open>i\<close> with the calendar date \<open>day\<close>, written
  after the specification's words (not after \<open>_get_row\<close>), for comparison with what the
  methods return.
\<close>

definition stored :: "ndarray \<Rightarrow> nat \<Rightarrow> string \<Rightarrow> real option" where
  "stored arr i c = map_option (\<lambda>j. rows arr ! i ! j) (index_of c (names arr))"

definition row_record :: "ndarray \<Rightarrow> nat \<Rightarrow> 'd \<Rightarrow> string \<Rightarrow> 'd val option" where
  "row_record arr i day c =
     (case stored arr i c of
        None \<Rightarrow> None
      | Some v \<Rightarrow> Some (if c = ''date'' then Day day else Num v))"


section \<open>Example timezone and tables\<close>

text \<open>
  A concrete timezone for the examples below: the process runs in UTC and a calendar date
  is the number of its day since 1970-01-01, from \<open>- 719162\<close> for 0001-01-01
  (\<open>datetime.date.min\<close>) to \<open>2932896\<close> for 9999-12-31 (\<open>datetime.date.max\<close>); other numbers are
  no dates. Local midnight of day \<open>d\<close> is the instant \<open>86400 * d\<close>, except that CPython raises
  \<open>ValueError\<close> for \<open>datetime.date.min\<close>. The date of an instant is the day it falls in; for
  an instant outside the years 1 to 9999 CPython (3.11, 64-bit Linux) raises \<open>ValueError\<close>,
  or \<open>OSError\<close> or \<open>OverflowError\<close> when the instant is too large for the C library or for
  \<open>time_t\<close>.
\<close>

definition utc :: "int localtime" where
  "utc = \<lparr>timestamp = (\<lambda>d. if - 719161 \<le> d \<and> d \<le> 2932896 then Inr (86400 * real_of_int d)
                            else Inl ValueError),
           fromtimestamp = (\<lambda>t.
             if t < - 9223372036854775808 \<or> 9223372036854775808 \<le> t then Inl OverflowError
             else if t < - 67768040609740800 \<or> 67768036191676800 \<le> t then Inl OSError
             else if \<lfloor>t / 86400\<rfloor> < - 719162 \<or> 2932896 < \<lfloor>t / 86400\<rfloor> then Inl ValueError
             else Inr \<lfloor>t / 86400\<rfloor>)\<rparr>"

text \<open>
  The table of the specification's example, with the dates 2020-01-02, 2020-01-03 and
  2020-01-06 (the days 18263, 18264 and 18267 since 1970-01-01) stored as their UTC
  midnight instants, and one value column.
\<close>

definition oslo :: ticker where
  "oslo = \<lparr>name = ''OSEBX'', long_name = ''Oslo Bors Benchmark Index'',
            data = \<lparr>names = [''date'', ''close''],
                     rows = [[1577923200, 10], [1578009600, 11], [1578268800, 12]]\<rparr>\<rparr>"

text \<open>A table without rows, and a table in which two rows share the instant of day 0.\<close>

definition no_rows :: ticker where
  "no_rows = \<lparr>name = ''NONE'', long_name = ''No data'',
               data = \<lparr>names = [''date'', ''close''], rows = []\<rparr>\<rparr>"

definition twice :: ticker where
  "twice = \<lparr>name = ''TWICE'', long_name = ''Duplicated day'',
             data = \<lparr>names = [''date'', ''close''], rows = [[0, 10], [0, 20]]\<rparr>\<rparr>"

text \<open>
  A table whose only row is stamped at one o'clock of day 0, a table whose rows are not in
  the order of their instants, and two tables whose only row is stamped at an instant that
  has no calendar date: in the year 10000, and two days before 0001-01-01.
\<close>

definition late :: ticker where
  "late = \<lparr>name = ''LATE'', long_name = ''Stamped at one'',
            data = \<lparr>names = [''date'', ''close''], rows = [[3600, 10]]\<rparr>\<rparr>"

definition unsorted :: ticker where
  "unsorted = \<lparr>name = ''MIXED'', long_name = ''Rows out of order'',
                data = \<lparr>names = [''date'', ''close''], rows = [[86400, 10], [0, 20]]\<rparr>\<rparr>"



section \<open>Facts about the primitives\<close>

subsection \<open>\<open>np.where\<close>\<close>

lemma set_np_where: "set (np_where P xs) = {i. i < length xs \<and> P (xs ! i)}"
  by (auto simp: np_where_def)

lemma sorted_np_where: "sorted (np_where P xs)"
  by (simp add: np_where_def sorted_wrt_filter)

lemma distinct_np_where: "distinct (np_where P xs)"
  by (simp add: np_where_def)

lemma map_nth_np_where: "map ((!) xs) (np_where P xs) = filter P xs"
proof -
  have "map ((!) xs) (np_where P xs) = filter P (map ((!) xs) [0..<length xs])"
    unfolding np_where_def filter_map comp_def ..
  then show ?thesis by (simp only: map_nth)
qed

lemma length_np_where: "length (np_where P xs) = length (filter P xs)"
  using map_nth_np_where [of xs P] length_map [of "(!) xs" "np_where P xs"] by simp

lemma np_where_empty_iff: "np_where P xs = [] \<longleftrightarrow> (\<forall>i < length xs. \<not> P (xs ! i))"
  using set_np_where [of P xs] by (auto simp flip: set_empty)

lemma np_where_first:
  assumes "np_where P xs \<noteq> []"
  shows "np_where P xs ! 0 < length xs" and "P (xs ! (np_where P xs ! 0))"
    and "\<forall>j < np_where P xs ! 0. \<not> P (xs ! j)"
proof -
  let ?m = "np_where P xs"
  have mem: "?m ! 0 \<in> set ?m" using assms by simp
  then show "?m ! 0 < length xs" and "P (xs ! (?m ! 0))"
    by (simp_all add: set_np_where)
  show "\<forall>j < ?m ! 0. \<not> P (xs ! j)"
  proof (intro allI impI notI)
    fix j assume j: "j < ?m ! 0" and p: "P (xs ! j)"
    from mem have "?m ! 0 < length xs" by (simp add: set_np_where)
    with j p have "j \<in> set ?m" by (simp add: set_np_where)
    then obtain k where k: "k < length ?m" "?m ! k = j" by (auto simp: in_set_conv_nth)
    have "?m ! 0 \<le> ?m ! k"
      by (rule sorted_nth_mono [OF sorted_np_where]) (use k in simp_all)
    with j k show False by simp
  qed
qed

lemma np_where_last:
  assumes "np_where P xs \<noteq> []"
  shows "last (np_where P xs) < length xs" and "P (xs ! last (np_where P xs))"
    and "\<forall>j. last (np_where P xs) < j \<and> j < length xs \<longrightarrow> \<not> P (xs ! j)"
proof -
  let ?m = "np_where P xs"
  have mem: "last ?m \<in> set ?m" using assms by simp
  then show "last ?m < length xs" and "P (xs ! last ?m)"
    by (simp_all add: set_np_where)
  show "\<forall>j. last ?m < j \<and> j < length xs \<longrightarrow> \<not> P (xs ! j)"
  proof (intro allI impI notI)
    fix j assume j: "last ?m < j \<and> j < length xs" and p: "P (xs ! j)"
    then have "j \<in> set ?m" by (simp add: set_np_where)
    then obtain k where k: "k < length ?m" "?m ! k = j" by (auto simp: in_set_conv_nth)
    have l: "last ?m = ?m ! (length ?m - 1)" using assms by (simp add: last_conv_nth)
    have "?m ! k \<le> ?m ! (length ?m - 1)"
      by (rule sorted_nth_mono [OF sorted_np_where]) (use k in simp_all)
    with l j k show False by simp
  qed
qed

lemma np_where_unique:
  assumes "i < length xs" "P (xs ! i)" "\<forall>j < length xs. P (xs ! j) \<longrightarrow> j = i"
  shows "np_where P xs = [i]"
proof -
  let ?m = "np_where P xs"
  have s: "set ?m = {i}"
  proof (rule set_eqI)
    fix j show "j \<in> set ?m \<longleftrightarrow> j \<in> {i}"
      unfolding set_np_where using assms by blast
  qed
  have "length ?m = card (set ?m)"
    by (rule distinct_card [symmetric]) (rule distinct_np_where)
  also have "\<dots> = 1" unfolding s by simp
  finally have "length ?m = 1" .
  then obtain x where x: "?m = [x]"
    by (cases ?m) simp_all
  from s have "x = i" unfolding x by simp
  with x show ?thesis by simp
qed

subsection \<open>Field names, dictionaries and indexing\<close>

lemma index_of_None: "index_of x xs = None \<longleftrightarrow> x \<notin> set xs"
  by (induction xs) auto

lemma index_of_Some: "index_of x xs = Some j \<Longrightarrow> j < length xs \<and> xs ! j = x"
  by (induction xs arbitrary: j) (auto split: if_splits)

lemma index_of_mem: "x \<in> set xs \<Longrightarrow> \<exists>j. index_of x xs = Some j"
  using index_of_None [of x xs] by (cases "index_of x xs") auto

lemma dict_foldl_distinct:
  "distinct (map fst (d0 @ kvs)) \<Longrightarrow>
   foldl (\<lambda>d (k, v). AList.update k v d) d0 kvs = d0 @ kvs"
proof (induction kvs arbitrary: d0)
  case Nil
  then show ?case by simp
next
  case (Cons kv kvs)
  obtain k v where kv: "kv = (k, v)" by (cases kv)
  from Cons.prems have "k \<notin> fst ` set d0" by (auto simp: kv)
  then have u: "AList.update k v d0 = d0 @ [(k, v)]"
    by (induction d0) auto
  from Cons.prems have "distinct (map fst ((d0 @ [(k, v)]) @ kvs))" by (simp add: kv)
  from Cons.IH [OF this] show ?case by (simp add: kv u)
qed

lemma dict_zip_distinct: "distinct ns \<Longrightarrow> dict (zip ns vs) = zip ns vs"
proof -
  assume "distinct ns"
  then have "distinct (map fst ([] @ zip ns vs))"
    by (simp add: map_fst_zip_take)
  from dict_foldl_distinct [OF this] show ?thesis by (simp add: dict_def)
qed

lemma map_of_zip_index_of:
  "index_of c ns = Some j \<Longrightarrow> length vs = length ns \<Longrightarrow> map_of (zip ns vs) c = Some (vs ! j)"
proof (induction ns arbitrary: vs j)
  case Nil
  then show ?case by simp
next
  case (Cons n ns)
  then obtain v vs' where vs: "vs = v # vs'" by (cases vs) auto
  show ?case using Cons by (auto simp: vs split: if_splits)
qed

lemma map_of_zip_not_mem: "c \<notin> set ns \<Longrightarrow> map_of (zip ns vs) c = None"
  by (meson in_set_zipE map_of_SomeD not_None_eq)

lemma getitem_nat: "i < length xs \<Longrightarrow> getitem xs (int i) = Inr (xs ! i)"
  by (simp add: getitem_def)

lemma getitem_Nil: "getitem [] i = Inl IndexError"
  by (simp add: getitem_def)

lemma getitem_last: "xs \<noteq> [] \<Longrightarrow> getitem xs (- 1) = Inr (last xs)"
  by (cases xs rule: rev_cases) (simp_all add: getitem_def)

lemma column_length: "column arr nm = Inr col \<Longrightarrow> length col = length (rows arr)"
  by (auto simp: column_def split: option.splits)

lemma column_nth:
  "column arr nm = Inr col \<Longrightarrow> i < length (rows arr) \<Longrightarrow> stored arr i nm = Some (col ! i)"
  by (auto simp: column_def stored_def split: option.splits)

lemma column_Inr_iff: "(\<exists>col. column arr nm = Inr col) \<longleftrightarrow> nm \<in> set (names arr)"
  using index_of_None [of nm "names arr"] by (auto simp: column_def split: option.splits)

subsection \<open>\<open>_get_row\<close>\<close>

lemma get_row_eq:
  assumes wf: "wf_ndarray (data self)"
    and col: "column (data self) ''date'' = Inr col"
    and i: "i < length col"
  shows "get_row tz (int i) self =
     (case fromtimestamp tz (col ! i) of
        Inl e \<Rightarrow> (Inl e, self)
      | Inr day \<Rightarrow>
          (Inr (AList.update ''date'' (Day day)
                 (zip (names (data self)) (map Num (rows (data self) ! i)))), self))"
proof -
  let ?arr = "data self"
  let ?row = "rows ?arr ! i"
  let ?d = "zip (names ?arr) (map Num ?row)"
  from col obtain j where j: "index_of ''date'' (names ?arr) = Some j"
    and colj: "col = map (\<lambda>r. r ! j) (rows ?arr)"
    by (auto simp: column_def split: option.splits)
  from i colj have i': "i < length (rows ?arr)" by simp
  with wf have len: "length ?row = length (names ?arr)"
    by (simp add: wf_ndarray_def)
  from wf have dist: "distinct (names ?arr)" by (simp add: wf_ndarray_def)
  have "j < length ?row" using index_of_Some [OF j] len by simp
  then have lk: "map_of ?d ''date'' = Some (Num (?row ! j))"
    using map_of_zip_index_of [OF j, of "map Num ?row"] len by simp
  have coli: "col ! i = ?row ! j" using colj i' by simp
  show ?thesis
    by (simp add: get_row_def getitem_nat [OF i'] Let_def dict_zip_distinct [OF dist] lk coli
        split: sum.splits)
qed

lemma get_row_ok:
  assumes wf: "wf_ndarray (data self)"
    and col: "column (data self) ''date'' = Inr col"
    and i: "i < length col"
    and conv: "fromtimestamp tz (col ! i) = Inr day"
  shows "\<exists>r. get_row tz (int i) self = (Inr r, self)
              \<and> map_of r = row_record (data self) i day
              \<and> map_of r ''date'' = Some (Day day)"
proof -
  let ?arr = "data self"
  let ?row = "rows ?arr ! i"
  let ?d = "zip (names ?arr) (map Num ?row)"
  from col obtain j where j: "index_of ''date'' (names ?arr) = Some j"
    and colj: "col = map (\<lambda>r. r ! j) (rows ?arr)"
    by (auto simp: column_def split: option.splits)
  from i colj have i': "i < length (rows ?arr)" by simp
  with wf have len: "length ?row = length (names ?arr)"
    by (simp add: wf_ndarray_def)
  have lk: "\<And>c k. index_of c (names ?arr) = Some k \<Longrightarrow> map_of ?d c = Some (Num (?row ! k))"
  proof -
    fix c k assume k: "index_of c (names ?arr) = Some k"
    then have "k < length ?row" using index_of_Some [OF k] len by simp
    then show "map_of ?d c = Some (Num (?row ! k))"
      using map_of_zip_index_of [OF k, of "map Num ?row"] len by simp
  qed
  let ?r = "AList.update ''date'' (Day day) ?d"
  have "get_row tz (int i) self = (Inr ?r, self)"
    by (simp add: get_row_eq [OF wf col i] conv)
  moreover have "map_of ?r = row_record ?arr i day"
  proof (rule ext)
    fix c
    show "map_of ?r c = row_record ?arr i day c"
    proof (cases "index_of c (names ?arr)")
      case None
      then have "c \<notin> set (names ?arr)" by (simp add: index_of_None)
      moreover from this j have "c \<noteq> ''date''" using index_of_None [of c "names ?arr"] by auto
      ultimately show ?thesis using None
        by (simp add: update_conv' row_record_def stored_def map_of_zip_not_mem)
    next
      case (Some k)
      show ?thesis
      proof (cases "c = ''date''")
        case True
        with Some show ?thesis
          by (simp add: update_conv' row_record_def stored_def)
      next
        case False
        with Some lk [OF Some] show ?thesis
          by (simp add: update_conv' row_record_def stored_def)
      qed
    qed
  qed
  moreover have "map_of ?r ''date'' = Some (Day day)"
    by (simp add: update_conv')
  ultimately show ?thesis by blast
qed


lemma get_row_self: "snd (get_row tz index self) = self"
  by (simp add: get_row_def Let_def split: sum.splits option.splits val.splits)

subsection \<open>The example timezone and tables\<close>

lemma column_oslo:
  "column (data oslo) ''date'' = Inr [1577923200, 1578009600, 1578268800]"
  by (simp add: column_def oslo_def)

lemma column_twice: "column (data twice) ''date'' = Inr [0, 0]"
  by (simp add: column_def twice_def)

lemma column_late: "column (data late) ''date'' = Inr [3600]"
  by (simp add: column_def late_def)

lemma column_unsorted: "column (data unsorted) ''date'' = Inr [86400, 0]"
  by (simp add: column_def unsorted_def)



lemma wf_oslo: "wf_ndarray (data oslo)"
  by (simp add: wf_ndarray_def oslo_def)

lemma sorted_oslo: "sorted [1577923200 :: real, 1578009600, 1578268800]"
  by simp

lemma timestamp_utc_min: "timestamp utc (- 719162) = Inl ValueError"
  by (simp add: utc_def)




section \<open>The lookups on a table with a \<open>date\<close> column\<close>

lemma get_day_unfold:
  assumes "timestamp tz d = Inr ts" and "column (data self) ''date'' = Inr col"
  shows "get_day tz d self =
     (let matches = np_where (\<lambda>x. x = ts) col
      in if matches = [] then (Inl KeyError, self)
         else if length matches = 1 then get_row tz (int (matches ! 0)) self
         else (Inl Exception, self))"
  using assms by (simp add: get_day_def Let_def)

lemma first_after_unfold:
  assumes "timestamp tz d = Inr ts" and "column (data self) ''date'' = Inr col"
  shows "get_day_or_first_after tz d self =
     (let matches = np_where (\<lambda>x. ts \<le> x) col
      in if matches = [] then (Inl KeyError, self)
         else get_row tz (int (matches ! 0)) self)"
  using assms by (simp add: get_day_or_first_after_def Let_def)

lemma last_before_unfold:
  assumes "timestamp tz d = Inr ts" and "column (data self) ''date'' = Inr col"
  shows "get_day_or_last_before tz d self =
     (let matches = np_where (\<lambda>x. x \<le> ts) col
      in if matches = [] then (Inl KeyError, self)
         else get_row tz (int (last matches)) self)"
  using assms by (simp add: get_day_or_last_before_def Let_def)


text \<open>The specification's example, evaluated.\<close>

lemma eval_get_day:
  "fst (get_day utc 18264 oslo) = Inr [(''date'', Day 18264), (''close'', Num 11)]"
  by (simp add: get_day_def column_def oslo_def utc_def np_where_def get_row_def getitem_def
      dict_def upt_rec)


lemma eval_last_before:
  "fst (get_day_or_last_before utc 18265 oslo) = Inr [(''date'', Day 18264), (''close'', Num 11)]"
  by (simp add: get_day_or_last_before_def column_def oslo_def utc_def np_where_def get_row_def
      getitem_def dict_def upt_rec)

section \<open>The exact lookup\<close>

text \<open>
  Claim C5, amended. When the conversion of the query date to its local-midnight instant
  succeeds, the table has a \<open>date\<close> column and no row's instant equals that instant,
  \<open>get_day\<close> raises \<open>KeyError\<close>, the specification's \<open>DateNotFoundError\<close>.
\<close>

theorem get_day_not_found:
  assumes "timestamp tz d = Inr ts"
    and "column (data self) ''date'' = Inr col"
    and "ts \<notin> set col"
  shows "fst (get_day tz d self) = Inl KeyError"
proof -
  from assms(3) have "np_where (\<lambda>x. x = ts) col = []"
    unfolding np_where_empty_iff by (metis nth_mem)
  with assms(1,2) show ?thesis by (simp add: get_day_def)
qed

theorem get_day_not_found_witness:
  "timestamp utc 18266 = Inr 1578182400
   \<and> column (data oslo) ''date'' = Inr [1577923200, 1578009600, 1578268800]
   \<and> 1578182400 \<notin> set [1577923200 :: real, 1578009600, 1578268800]
   \<and> fst (get_day utc 18266 oslo) = Inl KeyError"
proof -
  have s: "timestamp utc 18266 = Inr 1578182400" by (simp add: utc_def)
  have t: "1578182400 \<notin> set [1577923200 :: real, 1578009600, 1578268800]" by simp
  from get_day_not_found [OF s column_oslo t] s column_oslo t show ?thesis by (intro conjI)
qed

text \<open>
  As the specification has it, for every query date, the sentence fails at the earliest
  date, 0001-01-01: no row of the example table holds the instant of its midnight, which
  would be \<open>86400 * (- 719162)\<close>, but the conversion in the first statement of \<open>get_day\<close>
  raises \<open>ValueError\<close> before the table is read, and that is what the caller receives.
\<close>

theorem get_day_not_found_counterexample:
  "column (data oslo) ''date'' = Inr [1577923200, 1578009600, 1578268800]
   \<and> 86400 * real_of_int (- 719162) \<notin> set [1577923200 :: real, 1578009600, 1578268800]
   \<and> timestamp utc (- 719162) = Inl ValueError
   \<and> fst (get_day utc (- 719162) oslo) = Inl ValueError
   \<and> fst (get_day utc (- 719162) oslo) \<noteq> Inl KeyError"
  by (simp add: column_oslo timestamp_utc_min get_day_def)

text \<open>
  Claim C4. When two different rows \<open>i < j\<close> both hold the local-midnight instant of
  the query date, \<open>get_day\<close> raises the bare \<open>Exception\<close>, the specification's
  \<open>DataIntegrityError\<close>; the result is an error, so neither row is returned.
\<close>

theorem get_day_duplicate:
  assumes "timestamp tz d = Inr ts"
    and "column (data self) ''date'' = Inr col"
    and "i < j" and "j < length col"
    and "col ! i = ts" and "col ! j = ts"
  shows "fst (get_day tz d self) = Inl Exception"
proof -
  let ?m = "np_where (\<lambda>x. x = ts) col"
  from assms have "i \<in> set ?m" and "j \<in> set ?m" and "i \<noteq> j"
    by (simp_all add: set_np_where)
  then have "{i, j} \<subseteq> set ?m" by simp
  then have "card {i, j} \<le> card (set ?m)" by (intro card_mono) simp_all
  with \<open>i \<noteq> j\<close> have "2 \<le> card (set ?m)" by simp
  also have "card (set ?m) = length ?m"
    by (rule distinct_card) (rule distinct_np_where)
  finally have "2 \<le> length ?m" .
  then have "length ?m \<noteq> 0" and "length ?m \<noteq> 1" by linarith+
  with assms(1,2) show ?thesis by (simp add: get_day_def Let_def)
qed

theorem get_day_duplicate_witness:
  "timestamp utc 0 = Inr 0
   \<and> column (data twice) ''date'' = Inr [0, 0]
   \<and> (0::nat) < 1 \<and> 1 < length [0::real, 0]
   \<and> [0::real, 0] ! 0 = 0 \<and> [0::real, 0] ! 1 = 0
   \<and> fst (get_day utc 0 twice) = Inl Exception"
proof -
  have s: "timestamp utc 0 = Inr 0" by (simp add: utc_def)
  have a: "(0::nat) < 1" and b: "1 < length [0::real, 0]"
    and c: "[0::real, 0] ! 0 = 0" and d: "[0::real, 0] ! 1 = 0"
    by simp_all
  from get_day_duplicate [OF s column_twice a b c d] s column_twice a b c d
  show ?thesis by (intro conjI)
qed



section \<open>The boundary dates and the frame\<close>

text \<open>
  Claim C6. On a table with zero rows, \<open>get_first_date\<close> and \<open>get_last_date\<close> both
  raise \<open>IndexError\<close>, the specification's \<open>EmptyTableError\<close>: \<open>data[0]\<close> and
  \<open>data[-1]\<close> fail before anything else is read.
\<close>

theorem boundary_dates_empty:
  assumes "rows (data self) = []"
  shows "fst (get_first_date tz self) = Inl IndexError
       \<and> fst (get_last_date tz self) = Inl IndexError"
  using assms by (simp add: get_first_date_def get_last_date_def getitem_Nil)

theorem boundary_dates_empty_witness:
  "rows (data no_rows) = []
   \<and> fst (get_first_date utc no_rows) = Inl IndexError
   \<and> fst (get_last_date utc no_rows) = Inl IndexError"
proof -
  have e: "rows (data no_rows) = []" by (simp add: no_rows_def)
  from boundary_dates_empty [OF e, of utc] e show ?thesis by simp
qed

text \<open>
  Claim C9. Each of the five lookups returns the object it was called on unchanged, with
  its name, its long name and every row of its data, whether the call returns a value or
  raises.
\<close>

theorem lookups_leave_table_unchanged:
  "snd (get_first_date tz self) = self
   \<and> snd (get_last_date tz self) = self
   \<and> snd (get_day tz d self) = self
   \<and> snd (get_day_or_first_after tz d self) = self
   \<and> snd (get_day_or_last_before tz d self) = self"
proof (intro conjI)
  show "snd (get_first_date tz self) = self"
    by (simp add: get_first_date_def split: sum.splits)
  show "snd (get_last_date tz self) = self"
    by (simp add: get_last_date_def split: sum.splits)
  show "snd (get_day tz d self) = self"
    by (simp add: get_day_def Let_def get_row_self split: sum.splits)
  show "snd (get_day_or_first_after tz d self) = self"
    by (simp add: get_day_or_first_after_def Let_def get_row_self split: sum.splits)
  show "snd (get_day_or_last_before tz d self) = self"
    by (simp add: get_day_or_last_before_def Let_def get_row_self split: sum.splits)
qed

section \<open>The nearest-date lookups\<close>









section \<open>Relations between the lookups\<close>

lemma first_date_eq:
  assumes col: "column (data self) ''date'' = Inr col" and ne: "col \<noteq> []"
  shows "get_first_date tz self = (fromtimestamp tz (col ! 0), self)"
proof -
  from col obtain j where j: "index_of ''date'' (names (data self)) = Some j"
    and colj: "col = map (\<lambda>r. r ! j) (rows (data self))"
    by (auto simp: column_def split: option.splits)
  from ne colj have pos: "0 < length (rows (data self))" by auto
  from getitem_nat [OF pos] have g: "getitem (rows (data self)) 0 = Inr (rows (data self) ! 0)"
    by simp
  from colj pos have "col ! 0 = rows (data self) ! 0 ! j" by simp
  then show ?thesis by (simp add: get_first_date_def g field_def j)
qed

lemma last_date_eq:
  assumes col: "column (data self) ''date'' = Inr col" and ne: "col \<noteq> []"
  shows "get_last_date tz self = (fromtimestamp tz (last col), self)"
proof -
  from col obtain j where j: "index_of ''date'' (names (data self)) = Some j"
    and colj: "col = map (\<lambda>r. r ! j) (rows (data self))"
    by (auto simp: column_def split: option.splits)
  from ne colj have rs: "rows (data self) \<noteq> []" by auto
  from colj rs have "last col = last (rows (data self)) ! j" by (simp add: last_map)
  then show ?thesis by (simp add: get_last_date_def getitem_last [OF rs] field_def j)
qed

text \<open>
  Claim C8, amended. On a non-empty table sorted strictly ascending by instant (sorted,
  and no instant stored twice) whose first and last instants are the local-midnight
  instants of their calendar dates \<open>d0\<close> and \<open>dl\<close>: \<open>get_first_date\<close> returns \<open>d0\<close> and
  \<open>get_day_or_last_before\<close> at \<open>d0\<close> returns the record of the first row; \<open>get_last_date\<close>
  returns \<open>dl\<close> and \<open>get_day_or_first_after\<close> at \<open>dl\<close> returns the record of the last row.
\<close>

theorem boundary_round_trip:
  assumes wf: "wf_ndarray (data self)"
    and col: "column (data self) ''date'' = Inr col"
    and ne: "col \<noteq> []"
    and strict: "sorted_wrt (<) col"
    and f0: "fromtimestamp tz (col ! 0) = Inr d0"
    and m0: "timestamp tz d0 = Inr (col ! 0)"
    and fl: "fromtimestamp tz (last col) = Inr dl"
    and ml: "timestamp tz dl = Inr (last col)"
  shows "fst (get_first_date tz self) = Inr d0
       \<and> (\<exists>r. fst (get_day_or_last_before tz d0 self) = Inr r
              \<and> map_of r = row_record (data self) 0 d0)
       \<and> fst (get_last_date tz self) = Inr dl
       \<and> (\<exists>r. fst (get_day_or_first_after tz dl self) = Inr r
              \<and> map_of r = row_record (data self) (length col - 1) dl)"
proof -
  define n where "n = length col - 1"
  from ne have pos: "0 < length col" by simp
  from ne have n: "n < length col" by (simp add: n_def)
  from ne have lastn: "last col = col ! n" by (simp add: n_def last_conv_nth)
  have a: "fst (get_first_date tz self) = Inr d0"
    by (simp add: first_date_eq [OF col ne] f0)
  have c: "fst (get_last_date tz self) = Inr dl"
    by (simp add: last_date_eq [OF col ne] fl)
  have mb: "np_where (\<lambda>x. x \<le> col ! 0) col = [0]"
  proof (rule np_where_unique)
    show "0 < length col" by (rule pos)
    show "col ! 0 \<le> col ! 0" by simp
    show "\<forall>j<length col. col ! j \<le> col ! 0 \<longrightarrow> j = 0"
    proof (intro allI impI)
      fix j assume j: "j < length col" and le: "col ! j \<le> col ! 0"
      show "j = 0"
      proof (rule ccontr)
        assume "j \<noteq> 0"
        then have "0 < j" by simp
        from sorted_wrt_nth_less [OF strict this j] le show False by simp
      qed
    qed
  qed
  from get_row_ok [OF wf col pos f0] obtain r0 where
    r0: "get_row tz (int 0) self = (Inr r0, self)" "map_of r0 = row_record (data self) 0 d0"
    by blast
  have b: "\<exists>r. fst (get_day_or_last_before tz d0 self) = Inr r
              \<and> map_of r = row_record (data self) 0 d0"
  proof (intro exI conjI)
    show "fst (get_day_or_last_before tz d0 self) = Inr r0"
      using r0(1) by (simp add: last_before_unfold [OF m0 col] mb)
    show "map_of r0 = row_record (data self) 0 d0" by (rule r0(2))
  qed
  have ma: "np_where (\<lambda>x. col ! n \<le> x) col = [n]"
  proof (rule np_where_unique)
    show "n < length col" by (rule n)
    show "col ! n \<le> col ! n" by simp
    show "\<forall>j<length col. col ! n \<le> col ! j \<longrightarrow> j = n"
    proof (intro allI impI)
      fix j assume j: "j < length col" and le: "col ! n \<le> col ! j"
      show "j = n"
      proof (rule ccontr)
        assume "j \<noteq> n"
        with j have "j < n" by (simp add: n_def)
        from sorted_wrt_nth_less [OF strict this n] le show False by simp
      qed
    qed
  qed
  from fl lastn have fl': "fromtimestamp tz (col ! n) = Inr dl" by simp
  from ml lastn have ml': "timestamp tz dl = Inr (col ! n)" by simp
  from get_row_ok [OF wf col n fl'] obtain rl where
    rl: "get_row tz (int n) self = (Inr rl, self)" "map_of rl = row_record (data self) n dl"
    by blast
  have d: "\<exists>r. fst (get_day_or_first_after tz dl self) = Inr r
              \<and> map_of r = row_record (data self) n dl"
  proof (intro exI conjI)
    show "fst (get_day_or_first_after tz dl self) = Inr rl"
      using rl(1) by (simp add: first_after_unfold [OF ml' col] ma)
    show "map_of rl = row_record (data self) n dl" by (rule rl(2))
  qed
  from a b c d show ?thesis unfolding n_def by (intro conjI)
qed

theorem boundary_round_trip_witness:
  "wf_ndarray (data oslo)
   \<and> column (data oslo) ''date'' = Inr [1577923200, 1578009600, 1578268800]
   \<and> [1577923200 :: real, 1578009600, 1578268800] \<noteq> []
   \<and> sorted_wrt (<) [1577923200 :: real, 1578009600, 1578268800]
   \<and> fromtimestamp utc ([1577923200, 1578009600, 1578268800] ! 0) = Inr 18263
   \<and> timestamp utc 18263 = Inr ([1577923200, 1578009600, 1578268800] ! 0)
   \<and> fromtimestamp utc (last [1577923200, 1578009600, 1578268800]) = Inr 18267
   \<and> timestamp utc 18267 = Inr (last [1577923200, 1578009600, 1578268800])
   \<and> fst (get_first_date utc oslo) = Inr 18263
   \<and> (\<exists>r. fst (get_day_or_last_before utc 18263 oslo) = Inr r
          \<and> map_of r = row_record (data oslo) 0 18263)
   \<and> fst (get_last_date utc oslo) = Inr 18267
   \<and> (\<exists>r. fst (get_day_or_first_after utc 18267 oslo) = Inr r
          \<and> map_of r = row_record (data oslo) (length [1577923200 :: real, 1578009600, 1578268800] - 1) 18267)"
proof -
  let ?col = "[1577923200 :: real, 1578009600, 1578268800]"
  have ne: "?col \<noteq> []" by simp
  have st: "sorted_wrt (<) ?col" by simp
  have f0: "fromtimestamp utc (?col ! 0) = Inr 18263" by (simp add: utc_def)
  have m0: "timestamp utc 18263 = Inr (?col ! 0)" by (simp add: utc_def)
  have fl: "fromtimestamp utc (last ?col) = Inr 18267" by (simp add: utc_def)
  have ml: "timestamp utc 18267 = Inr (last ?col)" by (simp add: utc_def)
  note t = boundary_round_trip [OF wf_oslo column_oslo ne st f0 m0 fl ml]
  note t1 = conjunct1 [OF t]
  note t2 = conjunct1 [OF conjunct2 [OF t]]
  note t3 = conjunct1 [OF conjunct2 [OF conjunct2 [OF t]]]
  note t4 = conjunct2 [OF conjunct2 [OF conjunct2 [OF t]]]
  from wf_oslo column_oslo ne st f0 m0 fl ml t1 t2 t3 t4 show ?thesis by (intro conjI)
qed

text \<open>
  As the specification has it, for every non-empty table sorted ascending by instant, the
  sentence fails in two ways. On the table \<open>late\<close>, whose only row is stamped at one
  o'clock of day 0, \<open>get_first_date\<close> returns day 0, whose midnight is before the row's
  instant, so \<open>get_day_or_last_before\<close> at that date finds no row and raises \<open>KeyError\<close>. On
  the table \<open>twice\<close>, sorted but with the instant of day 0 stored in both rows,
  \<open>get_day_or_last_before\<close> at the first date returns the second row (with value 20), not the
  first (with value 10).
\<close>

theorem boundary_round_trip_counterexample:
  "rows (data late) = [[3600, 10]]
   \<and> sorted [3600 :: real]
   \<and> fst (get_first_date utc late) = Inr 0
   \<and> fst (get_day_or_last_before utc 0 late) = Inl KeyError
   \<and> rows (data twice) = [[0, 10], [0, 20]]
   \<and> sorted [0 :: real, 0]
   \<and> fst (get_first_date utc twice) = Inr 0
   \<and> fst (get_day_or_last_before utc 0 twice) = Inr [(''date'', Day 0), (''close'', Num 20)]"
proof -
  have a: "rows (data late) = [[3600, 10]]" by (simp add: late_def)
  have b: "fst (get_first_date utc late) = Inr 0"
    by (simp add: get_first_date_def getitem_def field_def late_def utc_def)
  have c: "fst (get_day_or_last_before utc 0 late) = Inl KeyError"
    by (simp add: get_day_or_last_before_def column_def late_def utc_def np_where_def)
  have d: "rows (data twice) = [[0, 10], [0, 20]]" by (simp add: twice_def)
  have e: "fst (get_first_date utc twice) = Inr 0"
    by (simp add: get_first_date_def getitem_def field_def twice_def utc_def)
  have f: "fst (get_day_or_last_before utc 0 twice) = Inr [(''date'', Day 0), (''close'', Num 20)]"
    by (simp add: get_day_or_last_before_def column_def twice_def utc_def np_where_def
        get_row_def getitem_def dict_def upt_rec)
  have g: "sorted [3600 :: real]" and h: "sorted [0 :: real, 0]" by simp_all
  from a g b c d h e f show ?thesis by (intro conjI)
qed

text \<open>
  Claim C10, amended. On a table sorted ascending by instant, when \<open>get_day\<close> returns a
  record for the date \<open>d\<close>, \<open>get_day_or_first_after\<close> and \<open>get_day_or_last_before\<close> return
  the same record for \<open>d\<close>.
\<close>

theorem exact_hit_agrees:
  assumes col: "column (data self) ''date'' = Inr col"
    and srt: "sorted col"
    and hit: "fst (get_day tz d self) = Inr r"
  shows "fst (get_day_or_first_after tz d self) = Inr r
       \<and> fst (get_day_or_last_before tz d self) = Inr r"
proof -
  from hit obtain ts where ts: "timestamp tz d = Inr ts"
    by (cases "timestamp tz d") (simp_all add: get_day_def)
  let ?m = "np_where (\<lambda>x. x = ts) col"
  let ?i = "?m ! 0"
  from hit have ne: "?m \<noteq> []"
    by (auto simp: get_day_unfold [OF ts col])
  from hit ne have one: "length ?m = 1"
    by (auto simp: get_day_unfold [OF ts col] Let_def split: if_splits)
  from hit ne one have g: "fst (get_row tz (int ?i) self) = Inr r"
    by (simp add: get_day_unfold [OF ts col])
  note e = np_where_first [OF ne]
  from one have single: "?m = [?i]" by (cases ?m) simp_all
  have uniq: "j = ?i" if "j < length col" and "col ! j = ts" for j
  proof -
    from that have "j \<in> set ?m" by (simp add: set_np_where)
    then have "j \<in> set [?i]" by (simp only: single [symmetric])
    then show ?thesis by simp
  qed
  let ?a = "np_where (\<lambda>x. ts \<le> x) col"
  from e(1,2) have "?i \<in> set ?a" by (simp add: set_np_where)
  then have nea: "?a \<noteq> []" by auto
  note fa = np_where_first [OF nea]
  have "\<not> ?i < ?a ! 0" using fa(3) e(2) by auto
  then have "?a ! 0 \<le> ?i" by simp
  then have "col ! (?a ! 0) \<le> col ! ?i"
    by (rule sorted_nth_mono [OF srt]) (rule e(1))
  with fa(2) e(2) have "col ! (?a ! 0) = ts" by simp
  with fa(1) have ia: "?a ! 0 = ?i" by (rule uniq)
  have first: "fst (get_day_or_first_after tz d self) = Inr r"
    using nea g by (simp add: first_after_unfold [OF ts col] ia)
  let ?b = "np_where (\<lambda>x. x \<le> ts) col"
  from e(1,2) have "?i \<in> set ?b" by (simp add: set_np_where)
  then have neb: "?b \<noteq> []" by auto
  note fb = np_where_last [OF neb]
  have "\<not> last ?b < ?i" using fb(3) e(1,2) by auto
  then have "?i \<le> last ?b" by simp
  then have "col ! ?i \<le> col ! last ?b"
    by (rule sorted_nth_mono [OF srt]) (rule fb(1))
  with fb(2) e(2) have "col ! last ?b = ts" by simp
  with fb(1) have ib: "last ?b = ?i" by (rule uniq)
  have last: "fst (get_day_or_last_before tz d self) = Inr r"
    using neb g by (simp add: last_before_unfold [OF ts col] ib)
  from first last show ?thesis by (intro conjI)
qed

theorem exact_hit_agrees_witness:
  "column (data oslo) ''date'' = Inr [1577923200, 1578009600, 1578268800]
   \<and> sorted [1577923200 :: real, 1578009600, 1578268800]
   \<and> fst (get_day utc 18264 oslo) = Inr [(''date'', Day 18264), (''close'', Num 11)]
   \<and> fst (get_day_or_first_after utc 18264 oslo) = Inr [(''date'', Day 18264), (''close'', Num 11)]
   \<and> fst (get_day_or_last_before utc 18264 oslo) = Inr [(''date'', Day 18264), (''close'', Num 11)]"
proof -
  note t = exact_hit_agrees [OF column_oslo sorted_oslo eval_get_day]
  from column_oslo sorted_oslo eval_get_day conjunct1 [OF t] conjunct2 [OF t]
  show ?thesis by (intro conjI)
qed

text \<open>
  As the specification has it, for every table, the sentence fails on the table
  \<open>unsorted\<close>, whose rows hold day 1 and then day 0: \<open>get_day\<close> at day 0 returns the second
  row, the only one with that instant, while \<open>get_day_or_first_after\<close> returns the first
  row, the first one whose instant is at or after it.
\<close>

theorem exact_hit_agrees_counterexample:
  "rows (data unsorted) = [[86400, 10], [0, 20]]
   \<and> fst (get_day utc 0 unsorted) = Inr [(''date'', Day 0), (''close'', Num 20)]
   \<and> fst (get_day_or_first_after utc 0 unsorted) = Inr [(''date'', Day 1), (''close'', Num 10)]
   \<and> fst (get_day_or_first_after utc 0 unsorted) \<noteq> fst (get_day utc 0 unsorted)"
proof -
  have a: "rows (data unsorted) = [[86400, 10], [0, 20]]" by (simp add: unsorted_def)
  have b: "fst (get_day utc 0 unsorted) = Inr [(''date'', Day 0), (''close'', Num 20)]"
    by (simp add: get_day_def column_def unsorted_def utc_def np_where_def
        get_row_def getitem_def dict_def upt_rec)
  have c: "fst (get_day_or_first_after utc 0 unsorted) = Inr [(''date'', Day 1), (''close'', Num 10)]"
    by (simp add: get_day_or_first_after_def column_def unsorted_def utc_def np_where_def
        get_row_def getitem_def dict_def upt_rec)
  from b c have d: "fst (get_day_or_first_after utc 0 unsorted) \<noteq> fst (get_day utc 0 unsorted)"
    by simp
  from a b c d show ?thesis by (intro conjI)
qed

end
